theory Spec2Isabelle
  imports
    Complex_Main
    "HOL-Library.Char_ord"
    "HOL-Library.List_Lexorder"
    "HOL-Library.Multiset"
    "HOL-Library.Sublist"
begin

section \<open>Data model\<close>

text \<open>
  The attendee record of \<^verbatim>\<open>types.ts\<close>, as \<^verbatim>\<open>db.ts\<close> and \<^verbatim>\<open>App.tsx\<close> use it:
  \<^verbatim>\<open>NIK\<close> and \<^verbatim>\<open>Nama\<close> are strings (\<^verbatim>\<open>attendee.Nama.toLowerCase()\<close>,
  \<^verbatim>\<open>a[sortKey].localeCompare\<close>), \<^verbatim>\<open>timestamp\<close> is a \<^verbatim>\<open>Date\<close>, read only through
  \<^verbatim>\<open>getTime()\<close>. A \<^verbatim>\<open>Date\<close> is modelled by its time value, the integer number of
  milliseconds since the epoch; every record of the application gets its timestamp
  from \<^verbatim>\<open>new Date()\<close>, which is never an invalid date.
  JavaScript strings are modelled as HOL strings, compared code unit by code unit.
\<close>

record Attendee =
  NIK :: string
  Nama :: string
  timestamp :: int

section \<open>The sort of JavaScript arrays\<close>

text \<open>
  \<^verbatim>\<open>Array.prototype.sort(cmp)\<close> is stable, and \<^verbatim>\<open>cmp(a, b) <= 0\<close> keeps \<^verbatim>\<open>a\<close> in front
  of \<^verbatim>\<open>b\<close>. For a consistent comparator the result is determined by that: it is the
  list a stable insertion sort computes.
\<close>

fun js_insert :: "('a \<Rightarrow> 'a \<Rightarrow> int) \<Rightarrow> 'a \<Rightarrow> 'a list \<Rightarrow> 'a list" where
  "js_insert cmp x [] = [x]"
| "js_insert cmp x (y # ys) =
     (if cmp x y \<le> 0 then x # y # ys else y # js_insert cmp x ys)"

definition js_sort :: "('a \<Rightarrow> 'a \<Rightarrow> int) \<Rightarrow> 'a list \<Rightarrow> 'a list" where
  "js_sort cmp xs = foldr (js_insert cmp) xs []"

text \<open>
  A comparator is consistent when it orders any two elements one way or the other and
  is transitive; \<^verbatim>\<open>sort\<close> promises a sorted array for such comparators only.
\<close>

definition consistent_comparator :: "('a \<Rightarrow> 'a \<Rightarrow> int) \<Rightarrow> bool" where
  "consistent_comparator cmp \<longleftrightarrow>
     (\<forall>x y. (cmp x y < 0) = (0 < cmp y x)) \<and>
     (\<forall>x y z. cmp x y \<le> 0 \<longrightarrow> cmp y z \<le> 0 \<longrightarrow> cmp x z \<le> 0)"

section \<open>The record store (db.ts)\<close>

text \<open>
  The object store \<^verbatim>\<open>attendees\<close> of IndexedDB is created with \<^verbatim>\<open>keyPath: 'NIK'\<close>: it holds
  at most one record for each key and enumerates its records in ascending key order.
  It is modelled as the list of its records in that order. The three functions below
  are the store's own \<^verbatim>\<open>put\<close>, \<^verbatim>\<open>delete\<close> and \<^verbatim>\<open>getAll\<close> as IndexedDB defines them.
\<close>

type_synonym objectStore = "Attendee list"

fun store_put :: "Attendee \<Rightarrow> objectStore \<Rightarrow> objectStore" where
  "store_put a [] = [a]"
| "store_put a (b # s) =
     (if NIK a = NIK b then a # s
      else if NIK a < NIK b then a # b # s
      else b # store_put a s)"

definition store_delete :: "string \<Rightarrow> objectStore \<Rightarrow> objectStore" where
  "store_delete nik s = filter (\<lambda>b. NIK b \<noteq> nik) s"

definition store_getAll :: "objectStore \<Rightarrow> Attendee list" where
  "store_getAll s = s"

text \<open>The invariant of an object store: keys strictly ascending, hence unique.\<close>

definition store_ok :: "objectStore \<Rightarrow> bool" where
  "store_ok s \<longleftrightarrow> sorted_wrt (<) (map NIK s)"

text \<open>
  The module variable \<^verbatim>\<open>let db: IDBDatabase\<close> is \<^verbatim>\<open>undefined\<close> until \<^verbatim>\<open>initDB\<close> has
  succeeded. It is modelled as \<open>None\<close>, or \<open>Some\<close> of the contents of the object store the
  connection gives access to. Every function of the module takes the value of \<^verbatim>\<open>db\<close>
  and returns how its promise settles (\<open>Inl\<close> the rejection, \<open>Inr\<close> the resolved value)
  together with the new value of \<^verbatim>\<open>db\<close>.
\<close>

datatype db_error =
    Database_error
  | DB_not_initialized
  | Error_adding_attendee
  | Error_getting_all_attendees
  | Error_deleting_attendee
  | Error_clearing_attendees

text \<open>
  What \<^verbatim>\<open>indexedDB.open(DB_NAME, DB_VERSION)\<close> does is decided by the browser: the request
  fails (\<^verbatim>\<open>onerror\<close>), or it succeeds on a database that already has the object store
  with some contents, or on a new database, where \<^verbatim>\<open>onupgradeneeded\<close> creates the empty
  object store first.
\<close>

datatype open_outcome = Open_fails | Open_existing objectStore | Open_new

text \<open>Whether a request of a transaction succeeds (\<^verbatim>\<open>onsuccess\<close>) or fails (\<^verbatim>\<open>onerror\<close>).\<close>

datatype request_outcome = Request_succeeds | Request_fails

definition initDB :: "open_outcome \<Rightarrow> objectStore option \<Rightarrow> (db_error + bool) \<times> objectStore option" where
  "initDB opening db =
     (case db of
        Some s \<Rightarrow> (Inr True, db)
      | None \<Rightarrow>
          (case opening of
             Open_fails \<Rightarrow> (Inl Database_error, None)
           | Open_existing s \<Rightarrow> (Inr True, Some s)
           | Open_new \<Rightarrow> (Inr True, Some [])))"

definition addAttendee ::
  "request_outcome \<Rightarrow> Attendee \<Rightarrow> objectStore option \<Rightarrow> (db_error + Attendee) \<times> objectStore option" where
  "addAttendee req attendee db =
     (case db of
        None \<Rightarrow> (Inl DB_not_initialized, db)
      | Some s \<Rightarrow>
          (case req of
             Request_succeeds \<Rightarrow> (Inr attendee, Some (store_put attendee s))
           | Request_fails \<Rightarrow> (Inl Error_adding_attendee, db)))"

definition getAllAttendees ::
  "request_outcome \<Rightarrow> objectStore option \<Rightarrow> (db_error + Attendee list) \<times> objectStore option" where
  "getAllAttendees req db =
     (case db of
        None \<Rightarrow> (Inl DB_not_initialized, db)
      | Some s \<Rightarrow>
          (case req of
             Request_succeeds \<Rightarrow>
               (Inr (js_sort (\<lambda>a b. timestamp b - timestamp a) (store_getAll s)), db)
           | Request_fails \<Rightarrow> (Inl Error_getting_all_attendees, db)))"

definition deleteAttendee ::
  "request_outcome \<Rightarrow> string \<Rightarrow> objectStore option \<Rightarrow> (db_error + string) \<times> objectStore option" where
  "deleteAttendee req nik db =
     (case db of
        None \<Rightarrow> (Inl DB_not_initialized, db)
      | Some s \<Rightarrow>
          (case req of
             Request_succeeds \<Rightarrow> (Inr nik, Some (store_delete nik s))
           | Request_fails \<Rightarrow> (Inl Error_deleting_attendee, db)))"

definition clearAttendees ::
  "request_outcome \<Rightarrow> objectStore option \<Rightarrow> (db_error + unit) \<times> objectStore option" where
  "clearAttendees req db =
     (case db of
        None \<Rightarrow> (Inl DB_not_initialized, db)
      | Some s \<Rightarrow>
          (case req of
             Request_succeeds \<Rightarrow> (Inr (), Some [])
           | Request_fails \<Rightarrow> (Inl Error_clearing_attendees, db)))"

section \<open>Strings and parsed JSON\<close>

text \<open>
  The string functions of JavaScript that the application calls, on strings whose code
  units are below 256. \<^verbatim>\<open>trim\<close> removes white space and line terminators at both ends
  (tab, line feed, vertical tab, form feed, carriage return, space, no-break space);
  \<^verbatim>\<open>toLowerCase\<close> maps \<^verbatim>\<open>A\<close> to \<^verbatim>\<open>Z\<close> and the capital letters of the Latin-1 block to
  their small letters; \<^verbatim>\<open>s.includes(q)\<close> holds when \<^verbatim>\<open>q\<close> occurs in \<^verbatim>\<open>s\<close> as a contiguous
  run; \<^verbatim>\<open>array.join(sep)\<close> concatenates with the separator in between.
\<close>

definition is_space :: "char \<Rightarrow> bool" where
  "is_space c \<longleftrightarrow> of_char c \<in> {9, 10, 11, 12, 13, 32, 160 :: nat}"

definition trim :: "string \<Rightarrow> string" where
  "trim s = rev (dropWhile is_space (rev (dropWhile is_space s)))"

definition toLowerCase_unit :: "char \<Rightarrow> char" where
  "toLowerCase_unit c =
     (let n = of_char c :: nat in
      if (65 \<le> n \<and> n \<le> 90) \<or> (192 \<le> n \<and> n \<le> 222 \<and> n \<noteq> 215)
      then char_of (n + 32) else c)"

definition toLowerCase :: "string \<Rightarrow> string" where
  "toLowerCase s = map toLowerCase_unit s"

fun str_includes :: "string \<Rightarrow> string \<Rightarrow> bool" where
  "str_includes [] q = (q = [])"
| "str_includes (c # cs) q = (prefix q (c # cs) \<or> str_includes cs q)"

fun js_join :: "string \<Rightarrow> string list \<Rightarrow> string" where
  "js_join sep [] = []"
| "js_join sep [x] = x"
| "js_join sep (x # y # ys) = x @ sep @ js_join sep (y # ys)"

text \<open>
  What \<^verbatim>\<open>JSON.parse\<close> returns, and \<^verbatim>\<open>undefined\<close>, which reading an absent property
  gives. An object is the list of its members in the order of the text; a later
  member of the same name overrides an earlier one. A number is given by its value.
\<close>

datatype jsval =
    JUndefined
  | JNull
  | JBool bool
  | JNum rat
  | JStr string
  | JArr "jsval list"
  | JObj "(string \<times> jsval) list"

text \<open>
  \<^verbatim>\<open>data.NIK\<close> and \<^verbatim>\<open>data.Nama\<close>: reading a property of \<^verbatim>\<open>null\<close> or \<^verbatim>\<open>undefined\<close> throws a
  \<^verbatim>\<open>TypeError\<close> (\<open>None\<close>); a number, a boolean, a string and an array have no property
  of these two names.
\<close>

fun get_member :: "jsval \<Rightarrow> string \<Rightarrow> jsval option" where
  "get_member JUndefined name = None"
| "get_member JNull name = None"
| "get_member (JObj members) name =
     Some (case map_of (rev members) name of None \<Rightarrow> JUndefined | Some v \<Rightarrow> v)"
| "get_member v name = Some JUndefined"

text \<open>Truthiness, as \<^verbatim>\<open>!data.NIK\<close> tests it.\<close>

fun truthy :: "jsval \<Rightarrow> bool" where
  "truthy JUndefined = False"
| "truthy JNull = False"
| "truthy (JBool b) = b"
| "truthy (JNum n) = (n \<noteq> 0)"
| "truthy (JStr s) = (s \<noteq> [])"
| "truthy (JArr vs) = True"
| "truthy (JObj members) = True"

text \<open>
  The string a template literal \<^verbatim>\<open>`${v}`\<close> makes of a value. \<open>Number_toString\<close> is the
  text of a number, which the language defines on doubles and the model takes as given.
  An array is the texts of its elements joined by commas, \<^verbatim>\<open>null\<close> and \<^verbatim>\<open>undefined\<close>
  elements giving the empty text. An object is \<^verbatim>\<open>[object Object]\<close>, unless it has a member
  of its own named \<^verbatim>\<open>toString\<close>: a parsed member is never a function, the conversion
  finds no method that returns a primitive, and a \<^verbatim>\<open>TypeError\<close> is thrown (\<open>None\<close>).
\<close>

fun js_ToString :: "(rat \<Rightarrow> string) \<Rightarrow> jsval \<Rightarrow> string option"
  and js_element_strings :: "(rat \<Rightarrow> string) \<Rightarrow> jsval list \<Rightarrow> string list option" where
  "js_ToString Number_toString JUndefined = Some ''undefined''"
| "js_ToString Number_toString JNull = Some ''null''"
| "js_ToString Number_toString (JBool b) = Some (if b then ''true'' else ''false'')"
| "js_ToString Number_toString (JNum n) = Some (Number_toString n)"
| "js_ToString Number_toString (JStr s) = Some s"
| "js_ToString Number_toString (JArr vs) =
     map_option (js_join '','') (js_element_strings Number_toString vs)"
| "js_ToString Number_toString (JObj members) =
     (if ''toString'' \<in> fst ` set members then None else Some ''[object Object]'')"
| "js_element_strings Number_toString [] = Some []"
| "js_element_strings Number_toString (v # vs) =
     (case (if v = JUndefined \<or> v = JNull then Some [] else js_ToString Number_toString v) of
        None \<Rightarrow> None
      | Some s \<Rightarrow> map_option ((#) s) (js_element_strings Number_toString vs))"

text \<open>
  The values IndexedDB accepts as a key: a number, a string, an array of keys.
  \<^verbatim>\<open>store.put\<close> throws a \<^verbatim>\<open>DataError\<close> for a record whose key path gives anything else.
\<close>

fun valid_key :: "jsval \<Rightarrow> bool" where
  "valid_key (JNum n) = True"
| "valid_key (JStr s) = True"
| "valid_key (JArr vs) = list_all valid_key vs"
| "valid_key v = False"

section \<open>The application (App.tsx)\<close>

text \<open>
  The state the handlers read and write: the module variable \<^verbatim>\<open>db\<close> of \<^verbatim>\<open>db.ts\<close> with
  the store behind it, the React state \<^verbatim>\<open>attendanceList\<close>, \<^verbatim>\<open>notification\<close>,
  \<^verbatim>\<open>manualNIK\<close>, \<^verbatim>\<open>manualNama\<close>, and the ref \<^verbatim>\<open>isProcessingScan\<close>. Timers are not
  modelled: a notification stays until the next one replaces it (the code clears it
  after four seconds), and \<^verbatim>\<open>isProcessingScan\<close> stays set until \<open>scan_timer_fires\<close> (the
  code resets it three seconds after the handler has finished). The sounds the scan
  handler plays are left out.
\<close>

datatype ntype = Success | Error | Info

record world =
  db :: "objectStore option"
  attendanceList :: "Attendee list"
  notification :: "(string \<times> ntype) option"
  manualNIK :: string
  manualNama :: string
  isProcessingScan :: bool

definition showNotification :: "string \<Rightarrow> ntype \<Rightarrow> world \<Rightarrow> world" where
  "showNotification message t w = w\<lparr>notification := Some (message, t)\<rparr>"

definition scan_timer_fires :: "world \<Rightarrow> world" where
  "scan_timer_fires w = w\<lparr>isProcessingScan := False\<rparr>"

text \<open>
  The Duplicate Guard: the expression
  \<^verbatim>\<open>attendanceList.some(attendee => attendee.NIK === nik)\<close> of both ingestion paths.
\<close>

definition duplicate_guard :: "Attendee list \<Rightarrow> string \<Rightarrow> bool" where
  "duplicate_guard attendees nik = list_ex (\<lambda>attendee. NIK attendee = nik) attendees"

text \<open>
  In the scan path the candidate is \<^verbatim>\<open>data.NIK\<close>, whatever \<^verbatim>\<open>JSON.parse\<close> has put there:
  \<^verbatim>\<open>attendee.NIK === data.NIK\<close> holds when \<^verbatim>\<open>data.NIK\<close> is a string, and the same string.
\<close>

definition duplicate_guard_scan :: "Attendee list \<Rightarrow> jsval \<Rightarrow> bool" where
  "duplicate_guard_scan attendees data_NIK =
     list_ex (\<lambda>attendee. JStr (NIK attendee) = data_NIK) attendees"

text \<open>
  \<^verbatim>\<open>handleScanSuccess(decodedText)\<close>. \<open>parsed\<close> is what \<^verbatim>\<open>JSON.parse(decodedText)\<close> gives:
  \<open>None\<close> when it throws, \<open>Some\<close> of the parsed value otherwise. \<open>now\<close> is the time
  \<^verbatim>\<open>new Date()\<close> reads and \<open>req\<close> the outcome of the write request, should one be made.
  Every exception inside the \<^verbatim>\<open>try\<close> block (from \<^verbatim>\<open>JSON.parse\<close>, from reading a property
  of \<^verbatim>\<open>null\<close>, the \<^verbatim>\<open>Error\<close> thrown for a missing field, from the template literal of a
  notification, from \<^verbatim>\<open>store.put\<close>, a rejected \<^verbatim>\<open>addAttendee\<close>) ends in the \<^verbatim>\<open>catch\<close> block
  and its notification.

  \<^verbatim>\<open>QrCodeData\<close> declares \<^verbatim>\<open>NIK\<close> and \<^verbatim>\<open>Nama\<close> as strings, and nothing checks it at run
  time: the test \<^verbatim>\<open>!data.NIK || !data.Nama\<close>, the guard and its notification work on
  whatever the payload holds, and so does the model. One case is left open (\<open>None\<close>): a
  payload that the guard lets through, with a \<^verbatim>\<open>NIK\<close> or \<^verbatim>\<open>Nama\<close> that is not a string,
  on an open store that accepts the key and whose write succeeds. The code then stores
  a record that is no \<^verbatim>\<open>Attendee\<close> and puts it in \<^verbatim>\<open>attendanceList\<close>, a state that the types
  of \<^verbatim>\<open>db.ts\<close> and \<^verbatim>\<open>App.tsx\<close>, which this model follows, do not have. Where such a
  payload leads to no write (no open store, a key IndexedDB refuses, a failing
  request), \<^verbatim>\<open>addAttendee\<close> rejects and the handler ends in its \<^verbatim>\<open>catch\<close> block.

  The spread \<^verbatim>\<open>{...data, timestamp: new Date()}\<close> also copies the other members of the
  payload into the record (a \<^verbatim>\<open>timestamp\<close> member is overridden). None of the
  operations modelled here reads them; the record of the model holds the three
  fields that are read.
\<close>

definition scan_failed :: "world \<Rightarrow> world" where
  "scan_failed w =
     showNotification ''Failed to parse QR code. Please use a valid event QR code.'' Error w"

definition handleScanSuccess ::
  "(rat \<Rightarrow> string) \<Rightarrow> jsval option \<Rightarrow> int \<Rightarrow> request_outcome \<Rightarrow> world \<Rightarrow> world option" where
  "handleScanSuccess Number_toString parsed now req w =
     (if isProcessingScan w then Some w
      else
        let w1 = w\<lparr>isProcessingScan := True\<rparr> in
        case parsed of
          None \<Rightarrow> Some (scan_failed w1)
        | Some data \<Rightarrow>
            (case (get_member data ''NIK'', get_member data ''Nama'') of
               (Some data_NIK, Some data_Nama) \<Rightarrow>
                 if \<not> truthy data_NIK \<or> \<not> truthy data_Nama then Some (scan_failed w1)
                 else if duplicate_guard_scan (attendanceList w1) data_NIK
                 then
                   (case js_ToString Number_toString data_Nama of
                      Some text \<Rightarrow>
                        Some (showNotification (text @ '' is already checked in.'') Info w1)
                    | None \<Rightarrow> Some (scan_failed w1))
                 else
                   (case (data_NIK, data_Nama) of
                      (JStr nik, JStr nama) \<Rightarrow>
                        let newAttendee = \<lparr>NIK = nik, Nama = nama, timestamp = now\<rparr> in
                        (case addAttendee req newAttendee (db w1) of
                           (Inr stored, db') \<Rightarrow>
                             Some (showNotification (''Welcome, '' @ nama @ ''!'') Success
                               (w1\<lparr>db := db',
                                   attendanceList := newAttendee # attendanceList w1\<rparr>))
                         | (Inl err, db') \<Rightarrow> Some (scan_failed (w1\<lparr>db := db'\<rparr>)))
                    | _ \<Rightarrow>
                        if db w1 = None \<or> \<not> valid_key data_NIK \<or> req = Request_fails
                        then Some (scan_failed w1)
                        else None)
             | _ \<Rightarrow> Some (scan_failed w1)))"

text \<open>
  \<^verbatim>\<open>handleManualAdd\<close>, on the form fields \<^verbatim>\<open>manualNIK\<close> and \<^verbatim>\<open>manualNama\<close> of the state.
\<close>

definition handleManualAdd :: "int \<Rightarrow> request_outcome \<Rightarrow> world \<Rightarrow> world" where
  "handleManualAdd now req w =
     (if trim (manualNIK w) = [] \<or> trim (manualNama w) = []
      then showNotification ''Both NIK and Nama are required for manual entry.'' Error w
      else
        let trimmedNIK = trim (manualNIK w);
            trimmedNama = trim (manualNama w) in
        if duplicate_guard (attendanceList w) trimmedNIK
        then showNotification
               (trimmedNama @ '' (NIK: '' @ trimmedNIK @ '') is already checked in.'') Info w
        else
          let newAttendee = \<lparr>NIK = trimmedNIK, Nama = trimmedNama, timestamp = now\<rparr> in
          (case addAttendee req newAttendee (db w) of
             (Inr stored, db') \<Rightarrow>
               (showNotification (''Welcome, '' @ Nama newAttendee @ ''!'') Success
                  (w\<lparr>db := db', attendanceList := newAttendee # attendanceList w\<rparr>))
               \<lparr>manualNIK := [], manualNama := []\<rparr>
           | (Inl err, db') \<Rightarrow> showNotification ''Failed to save attendee.'' Error (w\<lparr>db := db'\<rparr>)))"

text \<open>
  \<^verbatim>\<open>handleExportCSV\<close>. \<open>toLocaleString\<close> is \<^verbatim>\<open>Date.prototype.toLocaleString\<close>, whose text
  depends on the locale of the browser. The result is the new state and, when a file
  is offered for download, \<^verbatim>\<open>csvContent\<close>, the text the link's \<^verbatim>\<open>href\<close> encodes.
\<close>

definition double_quote :: char where
  "double_quote = CHR 0x22"

definition escape_quotes :: "string \<Rightarrow> string" where
  "escape_quotes s = concat (map (\<lambda>c. if c = double_quote then [double_quote, double_quote] else [c]) s)"

definition csv_row :: "(int \<Rightarrow> string) \<Rightarrow> Attendee \<Rightarrow> string list" where
  "csv_row toLocaleString attendee =
     [NIK attendee,
      [double_quote] @ escape_quotes (Nama attendee) @ [double_quote],
      [double_quote] @ toLocaleString (timestamp attendee) @ [double_quote]]"

definition handleExportCSV :: "(int \<Rightarrow> string) \<Rightarrow> world \<Rightarrow> world \<times> string option" where
  "handleExportCSV toLocaleString w =
     (if length (attendanceList w) = 0
      then (showNotification ''No attendees to export.'' Info w, None)
      else
        let headers = [''NIK'', ''Nama'', ''Timestamp''];
            sortedAttendees = js_sort (\<lambda>a b. timestamp a - timestamp b) (attendanceList w);
            rows = map (csv_row toLocaleString) sortedAttendees;
            csvContent = ''data:text/csv;charset=utf-8,''
              @ js_join [CHR 0x0A] (js_join '','' headers # map (js_join '','') rows)
        in (showNotification ''Attendance list exported.'' Success w, Some csvContent))"

text \<open>
  The List Projection \<^verbatim>\<open>sortedAndFilteredAttendees\<close>. \<open>localeCompare\<close> is
  \<^verbatim>\<open>String.prototype.localeCompare\<close>, whose order depends on the locale of the browser.
\<close>

datatype SortKey = Key_timestamp | Key_Nama | Key_NIK

datatype SortOrder = Asc | Desc

definition compare_attendees ::
  "(string \<Rightarrow> string \<Rightarrow> int) \<Rightarrow> SortKey \<Rightarrow> SortOrder \<Rightarrow> Attendee \<Rightarrow> Attendee \<Rightarrow> int" where
  "compare_attendees localeCompare sortKey sortOrder a b =
     (let comparison =
            (case sortKey of
               Key_Nama \<Rightarrow> localeCompare (Nama a) (Nama b)
             | Key_NIK \<Rightarrow> localeCompare (NIK a) (NIK b)
             | Key_timestamp \<Rightarrow> timestamp a - timestamp b)
      in case sortOrder of Asc \<Rightarrow> comparison | Desc \<Rightarrow> - comparison)"

definition matches_query :: "string \<Rightarrow> Attendee \<Rightarrow> bool" where
  "matches_query searchQuery attendee \<longleftrightarrow>
     str_includes (toLowerCase (Nama attendee)) (toLowerCase searchQuery)
     \<or> str_includes (toLowerCase (NIK attendee)) (toLowerCase searchQuery)"

definition sortedAndFilteredAttendees ::
  "(string \<Rightarrow> string \<Rightarrow> int) \<Rightarrow> Attendee list \<Rightarrow> string \<Rightarrow> SortKey \<Rightarrow> SortOrder \<Rightarrow> Attendee list" where
  "sortedAndFilteredAttendees localeCompare attendees searchQuery sortKey sortOrder =
     (let filtered = filter (matches_query searchQuery) attendees
      in js_sort (compare_attendees localeCompare sortKey sortOrder) filtered)"

section \<open>Properties named by the specification\<close>

text \<open>
  A scan payload that parses as structured data containing both an identifier field
  and a display name field: \<^verbatim>\<open>JSON.parse\<close> returns an object that has a member named
  \<^verbatim>\<open>NIK\<close> and a member named \<^verbatim>\<open>Nama\<close>.
\<close>

definition has_both_fields :: "jsval option \<Rightarrow> bool" where
  "has_both_fields parsed =
     (case parsed of
        Some (JObj members) \<Rightarrow> ''NIK'' \<in> fst ` set members \<and> ''Nama'' \<in> fst ` set members
      | _ \<Rightarrow> False)"

text \<open>
  A field contains the filter text case-insensitively: lowered, the text is a
  contiguous part of the lowered field.
\<close>

definition contains_ignoring_case :: "string \<Rightarrow> string \<Rightarrow> bool" where
  "contains_ignoring_case field text \<longleftrightarrow> sublist (toLowerCase text) (toLowerCase field)"

text \<open>
  Two records are in the order of a sort specification: by instant for the timestamp,
  by \<open>localeCompare\<close> for the two string fields, in the requested direction.
\<close>

definition in_order ::
  "(string \<Rightarrow> string \<Rightarrow> int) \<Rightarrow> SortKey \<Rightarrow> SortOrder \<Rightarrow> Attendee \<Rightarrow> Attendee \<Rightarrow> bool" where
  "in_order localeCompare sortKey sortOrder a b =
     (case (sortKey, sortOrder) of
        (Key_timestamp, Asc) \<Rightarrow> timestamp a \<le> timestamp b
      | (Key_timestamp, Desc) \<Rightarrow> timestamp b \<le> timestamp a
      | (Key_Nama, Asc) \<Rightarrow> localeCompare (Nama a) (Nama b) \<le> 0
      | (Key_Nama, Desc) \<Rightarrow> 0 \<le> localeCompare (Nama a) (Nama b)
      | (Key_NIK, Asc) \<Rightarrow> localeCompare (NIK a) (NIK b) \<le> 0
      | (Key_NIK, Desc) \<Rightarrow> 0 \<le> localeCompare (NIK a) (NIK b))"

text \<open>The line of the exported document that a record makes: its row, joined by commas.\<close>

definition csv_line :: "(int \<Rightarrow> string) \<Rightarrow> Attendee \<Rightarrow> string" where
  "csv_line toLocaleString a = js_join '','' (csv_row toLocaleString a)"

section \<open>Properties of the sort\<close>

lemma mset_js_insert: "mset (js_insert cmp x ys) = add_mset x (mset ys)"
  by (induction ys) simp_all

lemma mset_js_sort: "mset (js_sort cmp xs) = mset xs"
  by (induction xs) (simp_all add: js_sort_def mset_js_insert)

lemma set_js_insert: "set (js_insert cmp x ys) = insert x (set ys)"
  by (induction ys) auto

lemma sorted_js_insert:
  assumes "consistent_comparator cmp"
    and "sorted_wrt (\<lambda>a b. cmp a b \<le> 0) ys"
  shows "sorted_wrt (\<lambda>a b. cmp a b \<le> 0) (js_insert cmp x ys)"
  using assms(2)
proof (induction ys)
  case Nil
  then show ?case by simp
next
  case (Cons y ys)
  from assms(1) have tot: "\<And>u v. 0 < cmp u v \<Longrightarrow> cmp v u \<le> 0"
    unfolding consistent_comparator_def by (simp add: order.strict_implies_order)
  from assms(1) have tr: "\<And>u v w. cmp u v \<le> 0 \<Longrightarrow> cmp v w \<le> 0 \<Longrightarrow> cmp u w \<le> 0"
    unfolding consistent_comparator_def by blast
  show ?case
  proof (cases "cmp x y \<le> 0")
    case True
    with Cons.prems tr show ?thesis by auto
  next
    case False
    then have "cmp y x \<le> 0" using tot [of x y] by simp
    with False Cons show ?thesis by (auto simp: set_js_insert)
  qed
qed

lemma sorted_js_sort:
  assumes "consistent_comparator cmp"
  shows "sorted_wrt (\<lambda>a b. cmp a b \<le> 0) (js_sort cmp xs)"
  by (induction xs) (simp_all add: js_sort_def sorted_js_insert [OF assms])

lemma consistent_descending: "consistent_comparator (\<lambda>a b. f b - f a)"
  by (auto simp: consistent_comparator_def)

lemma consistent_ascending: "consistent_comparator (\<lambda>a b. f a - f b)"
  by (auto simp: consistent_comparator_def)

section \<open>Properties of the record store\<close>

subsection \<open>The object store keeps its invariant\<close>

lemma set_store_put: "set (store_put a s) \<subseteq> insert a (set s)"
  by (induction s) auto

lemma in_store_put: "a \<in> set (store_put a s)"
  by (induction s) auto

lemma store_ok_Cons: "store_ok (b # s) \<longleftrightarrow> (\<forall>c\<in>set s. NIK b < NIK c) \<and> store_ok s"
  by (auto simp: store_ok_def)

lemma store_ok_put: "store_ok s \<Longrightarrow> store_ok (store_put a s)"
proof (induction s)
  case Nil
  then show ?case by (simp add: store_ok_def)
next
  case (Cons b s)
  then show ?case using set_store_put [of a s]
    by (auto simp: store_ok_Cons)
qed

lemma store_ok_delete: "store_ok s \<Longrightarrow> store_ok (store_delete nik s)"
  by (induction s) (auto simp: store_ok_Cons store_delete_def)

lemma store_put_same_key:
  "store_ok s \<Longrightarrow> filter (\<lambda>b. NIK b = NIK a) (store_put a s) = [a]"
proof (induction s)
  case Nil
  then show ?case by simp
next
  case (Cons b s)
  have "NIK a < NIK b \<Longrightarrow> filter (\<lambda>c. NIK c = NIK a) s = []"
    using Cons.prems by (auto simp: store_ok_Cons filter_empty_conv)
  moreover have "NIK a = NIK b \<Longrightarrow> filter (\<lambda>c. NIK c = NIK a) s = []"
    using Cons.prems by (auto simp: store_ok_Cons filter_empty_conv)
  ultimately show ?case using Cons by (auto simp: store_ok_Cons)
qed

lemma store_put_other_keys:
  "filter (\<lambda>b. NIK b \<noteq> NIK a) (store_put a s) = filter (\<lambda>b. NIK b \<noteq> NIK a) s"
  by (induction s) auto

lemma length_store_put:
  "store_ok s \<Longrightarrow>
   length (store_put a s) = (if NIK a \<in> NIK ` set s then length s else Suc (length s))"
  by (induction s) (auto simp: store_ok_Cons)

lemma keys_store_put:
  "store_ok s \<Longrightarrow> NIK a \<in> NIK ` set s \<Longrightarrow> map NIK (store_put a s) = map NIK s"
  by (induction s) (auto simp: store_ok_Cons)

text \<open>
  Every function of the module keeps the invariant of the object store, and a newly
  created object store has it.
\<close>

lemma store_ok_initDB_new: "snd (initDB Open_new None) = Some s \<Longrightarrow> store_ok s"
  by (auto simp: initDB_def store_ok_def)

lemma store_ok_addAttendee:
  "store_ok s \<Longrightarrow> snd (addAttendee req a (Some s)) = Some s' \<Longrightarrow> store_ok s'"
  by (cases req) (auto simp: addAttendee_def store_ok_put)

lemma store_ok_deleteAttendee:
  "store_ok s \<Longrightarrow> snd (deleteAttendee req nik (Some s)) = Some s' \<Longrightarrow> store_ok s'"
  by (cases req) (auto simp: deleteAttendee_def store_ok_delete)

lemma store_ok_clearAttendees:
  "store_ok s \<Longrightarrow> snd (clearAttendees req (Some s)) = Some s' \<Longrightarrow> store_ok s'"
  by (cases req) (auto simp: clearAttendees_def store_ok_def)

lemma getAllAttendees_reads_only: "snd (getAllAttendees req handle) = handle"
  by (cases req) (auto simp: getAllAttendees_def split: option.splits)

subsection \<open>Put, GetAll, Delete\<close>

text \<open>
  C1. On an open store whose write request succeeds, Put of any record \<open>r\<close> resolves
  to \<open>r\<close> itself, and the GetAll that follows contains \<open>r\<close>. The store then holds exactly
  one record with the identifier of \<open>r\<close>, namely \<open>r\<close>: a prior record with that
  identifier has been replaced, not kept beside it, and the keys of the store are in
  the places they had. The records with other identifiers are the ones held before,
  and the number of records grows only when the identifier is new.
\<close>

theorem addAttendee_upsert:
  assumes "store_ok s"
  shows "\<exists>s' xs.
     addAttendee Request_succeeds r (Some s) = (Inr r, Some s')
     \<and> getAllAttendees Request_succeeds (Some s') = (Inr xs, Some s')
     \<and> r \<in> set xs
     \<and> filter (\<lambda>a. NIK a = NIK r) xs = [r]
     \<and> mset (filter (\<lambda>a. NIK a \<noteq> NIK r) xs) = mset (filter (\<lambda>a. NIK a \<noteq> NIK r) s)
     \<and> length xs = (if NIK r \<in> NIK ` set s then length s else Suc (length s))
     \<and> (NIK r \<in> NIK ` set s \<longrightarrow> map NIK s' = map NIK s)
     \<and> store_ok s'"
proof -
  let ?s' = "store_put r s"
  let ?xs = "js_sort (\<lambda>a b. timestamp b - timestamp a) ?s'"
  have m: "mset ?xs = mset ?s'" by (rule mset_js_sort)
  have "mset (filter (\<lambda>a. NIK a = NIK r) ?xs) = mset (filter (\<lambda>a. NIK a = NIK r) ?s')"
    using m by simp
  also have "\<dots> = mset [r]"
    by (simp only: store_put_same_key [OF assms])
  finally have one: "filter (\<lambda>a. NIK a = NIK r) ?xs = [r]"
    by (metis mset_single_iff mset.simps mset_single_iff_right)
  have "mset (filter (\<lambda>a. NIK a \<noteq> NIK r) ?xs) = mset (filter (\<lambda>a. NIK a \<noteq> NIK r) ?s')"
    using m by simp
  then have others:
    "mset (filter (\<lambda>a. NIK a \<noteq> NIK r) ?xs) = mset (filter (\<lambda>a. NIK a \<noteq> NIK r) s)"
    by (simp add: store_put_other_keys)
  have mem: "r \<in> set ?xs"
    using m in_store_put [of r s] by (metis set_mset_mset)
  have len: "length ?xs = (if NIK r \<in> NIK ` set s then length s else Suc (length s))"
    using m length_store_put [OF assms, of r] by (metis size_mset)
  show ?thesis
    using one others mem len store_ok_put [OF assms, of r] keys_store_put [OF assms, of r]
    by (simp add: addAttendee_def getAllAttendees_def store_getAll_def)
qed

theorem addAttendee_upsert_witness:
  "store_ok [\<lparr>NIK = ''A001'', Nama = ''Jane'', timestamp = 1\<rparr>]
   \<and> addAttendee Request_succeeds \<lparr>NIK = ''A001'', Nama = ''Janet'', timestamp = 2\<rparr>
        (Some [\<lparr>NIK = ''A001'', Nama = ''Jane'', timestamp = 1\<rparr>])
      = (Inr \<lparr>NIK = ''A001'', Nama = ''Janet'', timestamp = 2\<rparr>,
         Some [\<lparr>NIK = ''A001'', Nama = ''Janet'', timestamp = 2\<rparr>])
   \<and> getAllAttendees Request_succeeds (Some [\<lparr>NIK = ''A001'', Nama = ''Janet'', timestamp = 2\<rparr>])
      = (Inr [\<lparr>NIK = ''A001'', Nama = ''Janet'', timestamp = 2\<rparr>],
         Some [\<lparr>NIK = ''A001'', Nama = ''Janet'', timestamp = 2\<rparr>])"
proof -
  have ok: "store_ok [\<lparr>NIK = ''A001'', Nama = ''Jane'', timestamp = 1\<rparr>]"
    by (simp add: store_ok_def)
  show ?thesis
    using ok addAttendee_upsert [OF ok, of "\<lparr>NIK = ''A001'', Nama = ''Janet'', timestamp = 2\<rparr>"]
    by (simp add: addAttendee_def getAllAttendees_def store_getAll_def js_sort_def)
qed

text \<open>
  C2. On an open store whose read request succeeds, GetAll resolves to a list that
  holds exactly the stored records (each as often as the store holds it, whatever the
  order in which they were put) and that is sorted by timestamp, latest first. The sort
  is part of \<^verbatim>\<open>getAllAttendees\<close> itself; the store is left as it was.
\<close>

theorem getAllAttendees_sorted_descending:
  "\<exists>xs. getAllAttendees Request_succeeds (Some s) = (Inr xs, Some s)
     \<and> mset xs = mset s
     \<and> sorted_wrt (\<lambda>a b. timestamp b \<le> timestamp a) xs"
proof -
  let ?xs = "js_sort (\<lambda>a b. timestamp b - timestamp a) s"
  have "sorted_wrt (\<lambda>a b. timestamp b - timestamp a \<le> 0) ?xs"
    by (rule sorted_js_sort [OF consistent_descending])
  then have "sorted_wrt (\<lambda>a b. timestamp b \<le> timestamp a) ?xs" by simp
  then show ?thesis
    by (simp add: getAllAttendees_def store_getAll_def mset_js_sort)
qed

theorem getAllAttendees_sorted_descending_witness:
  "getAllAttendees Request_succeeds
     (Some [\<lparr>NIK = ''A'', Nama = ''Ann'', timestamp = 1\<rparr>,
            \<lparr>NIK = ''B'', Nama = ''Ben'', timestamp = 5\<rparr>,
            \<lparr>NIK = ''C'', Nama = ''Cal'', timestamp = 3\<rparr>])
   = (Inr [\<lparr>NIK = ''B'', Nama = ''Ben'', timestamp = 5\<rparr>,
           \<lparr>NIK = ''C'', Nama = ''Cal'', timestamp = 3\<rparr>,
           \<lparr>NIK = ''A'', Nama = ''Ann'', timestamp = 1\<rparr>],
      Some [\<lparr>NIK = ''A'', Nama = ''Ann'', timestamp = 1\<rparr>,
            \<lparr>NIK = ''B'', Nama = ''Ben'', timestamp = 5\<rparr>,
            \<lparr>NIK = ''C'', Nama = ''Cal'', timestamp = 3\<rparr>])"
  using getAllAttendees_sorted_descending
    [of "[\<lparr>NIK = ''A'', Nama = ''Ann'', timestamp = 1\<rparr>,
          \<lparr>NIK = ''B'', Nama = ''Ben'', timestamp = 5\<rparr>,
          \<lparr>NIK = ''C'', Nama = ''Cal'', timestamp = 3\<rparr>]"]
  by (simp add: getAllAttendees_def store_getAll_def js_sort_def)

text \<open>
  C9. On an open store whose delete request succeeds, Delete of an identifier that no
  stored record has resolves (to the identifier) and leaves the store as it was, so
  that GetAll afterwards answers what it answered before.
\<close>

theorem deleteAttendee_absent_noop:
  assumes "nik \<notin> NIK ` set s"
  shows "deleteAttendee Request_succeeds nik (Some s) = (Inr nik, Some s)
     \<and> getAllAttendees req (snd (deleteAttendee Request_succeeds nik (Some s)))
       = getAllAttendees req (Some s)"
proof -
  have "filter (\<lambda>b. NIK b \<noteq> nik) s = s"
    using assms by (auto simp: filter_id_conv)
  then show ?thesis
    by (simp add: deleteAttendee_def store_delete_def)
qed

theorem deleteAttendee_absent_noop_witness:
  "''A002'' \<notin> NIK ` set [\<lparr>NIK = ''A001'', Nama = ''Jane'', timestamp = 1\<rparr>]
   \<and> deleteAttendee Request_succeeds ''A002'' (Some [\<lparr>NIK = ''A001'', Nama = ''Jane'', timestamp = 1\<rparr>])
      = (Inr ''A002'', Some [\<lparr>NIK = ''A001'', Nama = ''Jane'', timestamp = 1\<rparr>])
   \<and> getAllAttendees Request_succeeds
        (snd (deleteAttendee Request_succeeds ''A002''
               (Some [\<lparr>NIK = ''A001'', Nama = ''Jane'', timestamp = 1\<rparr>])))
      = (Inr [\<lparr>NIK = ''A001'', Nama = ''Jane'', timestamp = 1\<rparr>],
         Some [\<lparr>NIK = ''A001'', Nama = ''Jane'', timestamp = 1\<rparr>])"
proof -
  have absent: "''A002'' \<notin> NIK ` set [\<lparr>NIK = ''A001'', Nama = ''Jane'', timestamp = 1\<rparr>]"
    by simp
  show ?thesis
    using absent deleteAttendee_absent_noop [OF absent, of Request_succeeds]
    by (simp add: getAllAttendees_def store_getAll_def js_sort_def)
qed

text \<open>
  C6. On a store that has not been opened (\<^verbatim>\<open>db\<close> is still undefined), each of Put,
  GetAll, Delete and ClearAll fails with the rejection \<^verbatim>\<open>'DB not initialized'\<close>, whatever
  the storage engine would have answered, and leaves \<^verbatim>\<open>db\<close> as it was: no storage
  access takes place.
\<close>

theorem unopened_store_not_initialized:
  "addAttendee req attendee None = (Inl DB_not_initialized, None)
   \<and> getAllAttendees req None = (Inl DB_not_initialized, None)
   \<and> deleteAttendee req nik None = (Inl DB_not_initialized, None)
   \<and> clearAttendees req None = (Inl DB_not_initialized, None)"
  by (simp add: addAttendee_def getAllAttendees_def deleteAttendee_def clearAttendees_def)

text \<open>
  C8. Opening is idempotent: on a store that is already open, \<^verbatim>\<open>initDB\<close> resolves to
  \<^verbatim>\<open>true\<close> at once, whatever \<^verbatim>\<open>indexedDB.open\<close> would have done (it is not called), and the
  store is unchanged.
\<close>

theorem initDB_idempotent:
  "initDB opening (Some s) = (Inr True, Some s)"
  by (simp add: initDB_def)

section \<open>Properties of the ingestion paths\<close>

subsection \<open>The scan path rejects malformed payloads\<close>

lemma get_member_absent:
  "name \<notin> fst ` set members \<Longrightarrow> get_member (JObj members) name = Some JUndefined"
proof -
  assume "name \<notin> fst ` set members"
  then have "name \<notin> fst ` set (rev members)" by simp
  then have "map_of (rev members) name = None" by (simp add: map_of_eq_None_iff)
  then show ?thesis by simp
qed

lemma scan_rejects_when_a_member_is_missing:
  assumes "get_member data ''NIK'' = Some JUndefined \<or> get_member data ''Nama'' = Some JUndefined
           \<or> get_member data ''NIK'' = None"
    and "\<not> isProcessingScan w"
  shows "handleScanSuccess Number_toString (Some data) now req w
         = Some (scan_failed (w\<lparr>isProcessingScan := True\<rparr>))"
  using assms
  by (auto simp: handleScanSuccess_def Let_def split: option.splits)

text \<open>
  C5, as the handler implements it. A scan payload that does not parse as structured
  data containing both a \<^verbatim>\<open>NIK\<close> and a \<^verbatim>\<open>Nama\<close> member never leads to a Put: the
  store and the record list are left as they were, whatever the engine would have
  answered. When the handler is not inside the three seconds that follow an earlier
  scan (\<^verbatim>\<open>isProcessingScan\<close> is clear), it shows the error notification of its \<^verbatim>\<open>catch\<close>
  block; inside them it returns at once and shows nothing.
\<close>

theorem invalid_payload_rejected:
  assumes "\<not> has_both_fields parsed"
  shows "handleScanSuccess Number_toString parsed now req w =
     Some (if isProcessingScan w then w
           else w\<lparr>isProcessingScan := True,
                  notification :=
                    Some (''Failed to parse QR code. Please use a valid event QR code.'', Error)\<rparr>)"
proof (cases "isProcessingScan w")
  case True
  then show ?thesis by (simp add: handleScanSuccess_def)
next
  case False
  have "handleScanSuccess Number_toString parsed now req w
        = Some (scan_failed (w\<lparr>isProcessingScan := True\<rparr>))"
  proof (cases parsed)
    case None
    with False show ?thesis by (simp add: handleScanSuccess_def)
  next
    case (Some data)
    have "get_member data ''NIK'' = Some JUndefined \<or> get_member data ''Nama'' = Some JUndefined
           \<or> get_member data ''NIK'' = None"
    proof (cases data)
      case (JObj members)
      with assms Some have "''NIK'' \<notin> fst ` set members \<or> ''Nama'' \<notin> fst ` set members"
        by (simp add: has_both_fields_def)
      with JObj show ?thesis using get_member_absent by blast
    qed simp_all
    with False Some show ?thesis by (simp add: scan_rejects_when_a_member_is_missing)
  qed
  with False show ?thesis by (simp add: scan_failed_def showNotification_def)
qed


theorem invalid_payload_rejected_witness:
  "\<not> has_both_fields (Some (JObj [(''NIK'', JStr ''123'')]))
   \<and> handleScanSuccess (\<lambda>n. []) (Some (JObj [(''NIK'', JStr ''123'')])) 7 Request_succeeds
        \<lparr>db = Some [], attendanceList = [], notification = None,
         manualNIK = [], manualNama = [], isProcessingScan = False\<rparr>
      = Some \<lparr>db = Some [], attendanceList = [],
              notification =
                Some (''Failed to parse QR code. Please use a valid event QR code.'', Error),
              manualNIK = [], manualNama = [], isProcessingScan = True\<rparr>"
proof -
  have invalid: "\<not> has_both_fields (Some (JObj [(''NIK'', JStr ''123'')]))"
    by (simp add: has_both_fields_def)
  show ?thesis
    using invalid
      invalid_payload_rejected [OF invalid, of "\<lambda>n. []" 7 Request_succeeds
        "\<lparr>db = Some [], attendanceList = [], notification = None,
          manualNIK = [], manualNama = [], isProcessingScan = False\<rparr>"]
    by simp
qed

text \<open>
  The payload \<^verbatim>\<open>{"NIK":"123"}\<close>, scanned two seconds after a successful scan: the handler
  returns at its first test, and the notification on the screen is still the welcome
  of the earlier scan. No error is surfaced.
\<close>

theorem invalid_payload_silent_while_processing:
  "\<not> has_both_fields (Some (JObj [(''NIK'', JStr ''123'')]))
   \<and> handleScanSuccess (\<lambda>n. []) (Some (JObj [(''NIK'', JStr ''123'')])) 2000 Request_succeeds
        \<lparr>db = Some [\<lparr>NIK = ''A001'', Nama = ''Jane'', timestamp = 1000\<rparr>],
         attendanceList = [\<lparr>NIK = ''A001'', Nama = ''Jane'', timestamp = 1000\<rparr>],
         notification = Some (''Welcome, Jane!'', Success),
         manualNIK = [], manualNama = [], isProcessingScan = True\<rparr>
      = Some \<lparr>db = Some [\<lparr>NIK = ''A001'', Nama = ''Jane'', timestamp = 1000\<rparr>],
              attendanceList = [\<lparr>NIK = ''A001'', Nama = ''Jane'', timestamp = 1000\<rparr>],
              notification = Some (''Welcome, Jane!'', Success),
              manualNIK = [], manualNama = [], isProcessingScan = True\<rparr>
   \<and> map_option (\<lambda>w'. map_option snd (notification w'))
        (handleScanSuccess (\<lambda>n. []) (Some (JObj [(''NIK'', JStr ''123'')])) 2000 Request_succeeds
          \<lparr>db = Some [\<lparr>NIK = ''A001'', Nama = ''Jane'', timestamp = 1000\<rparr>],
           attendanceList = [\<lparr>NIK = ''A001'', Nama = ''Jane'', timestamp = 1000\<rparr>],
           notification = Some (''Welcome, Jane!'', Success),
           manualNIK = [], manualNama = [], isProcessingScan = True\<rparr>)
      = Some (Some Success)"
  by (simp add: has_both_fields_def handleScanSuccess_def)

subsection \<open>The Duplicate Guard\<close>

lemma duplicate_guard_iff: "duplicate_guard attendees nik \<longleftrightarrow> (\<exists>a\<in>set attendees. NIK a = nik)"
  by (simp add: duplicate_guard_def list_ex_iff)

lemma duplicate_guard_scan_iff:
  "duplicate_guard_scan attendees data_NIK \<longleftrightarrow> (\<exists>a\<in>set attendees. data_NIK = JStr (NIK a))"
  by (auto simp: duplicate_guard_scan_def list_ex_iff)

text \<open>
  While \<^verbatim>\<open>isProcessingScan\<close> is set the scan handler returns at its first test: the guard
  is not evaluated, and nothing changes.
\<close>

lemma scan_ignored_while_processing:
  "isProcessingScan w \<Longrightarrow> handleScanSuccess Number_toString parsed now req w = Some w"
  by (simp add: handleScanSuccess_def)

lemma get_member_other:
  "get_member data name = Some v \<Longrightarrow> \<exists>v'. get_member data name' = Some v'"
  by (cases data) simp_all

text \<open>
  The one case in which the scan handler is not followed: a payload processed outside
  the window, both fields truthy and not both strings, the guard answering false, on
  an open store that accepts the key and whose write succeeds.
\<close>

lemma handleScanSuccess_left_open:
  "handleScanSuccess Number_toString parsed now req w = None \<longleftrightarrow>
     \<not> isProcessingScan w
     \<and> (\<exists>data data_NIK data_Nama.
           parsed = Some data
           \<and> get_member data ''NIK'' = Some data_NIK \<and> truthy data_NIK
           \<and> get_member data ''Nama'' = Some data_Nama \<and> truthy data_Nama
           \<and> \<not> duplicate_guard_scan (attendanceList w) data_NIK
           \<and> \<not> (\<exists>nik nama. data_NIK = JStr nik \<and> data_Nama = JStr nama)
           \<and> db w \<noteq> None \<and> valid_key data_NIK \<and> req = Request_succeeds)"
proof (cases "isProcessingScan w")
  case True
  then show ?thesis by (simp add: handleScanSuccess_def)
next
  case False
  show ?thesis
  proof (cases parsed)
    case None
    with False show ?thesis by (simp add: handleScanSuccess_def)
  next
    case (Some data)
    show ?thesis
    proof (cases "get_member data ''NIK''")
      case None
      with False Some show ?thesis by (simp add: handleScanSuccess_def)
    next
      case nik: (Some data_NIK)
      then obtain data_Nama where nama: "get_member data ''Nama'' = Some data_Nama"
        using get_member_other by blast
      show ?thesis
      proof (cases "truthy data_NIK \<and> truthy data_Nama
                    \<and> \<not> duplicate_guard_scan (attendanceList w) data_NIK")
        case True
        with False Some nik nama show ?thesis
          by (cases req; cases data_NIK; cases data_Nama)
            (auto simp: handleScanSuccess_def Let_def addAttendee_def split: option.splits)
      next
        case False': False
        with False Some nik nama show ?thesis
          by (auto simp: handleScanSuccess_def Let_def split: option.splits)
      qed
    qed
  qed
qed

text \<open>
  What the scan handler does once its guard has answered true: the notification that
  the attendee is already checked in, or, when the text of \<^verbatim>\<open>data.Nama\<close> cannot be made,
  the notification of the \<^verbatim>\<open>catch\<close> block.
\<close>

lemma scan_duplicate_reached:
  assumes "duplicate_guard_scan (attendanceList w) data_NIK" and "\<not> isProcessingScan w"
    and "get_member data ''NIK'' = Some data_NIK" and "truthy data_NIK"
    and "get_member data ''Nama'' = Some data_Nama" and "truthy data_Nama"
  shows "handleScanSuccess Number_toString (Some data) now req w =
     Some (case js_ToString Number_toString data_Nama of
             Some text \<Rightarrow>
               w\<lparr>isProcessingScan := True,
                 notification := Some (text @ '' is already checked in.'', Info)\<rparr>
           | None \<Rightarrow>
               w\<lparr>isProcessingScan := True,
                 notification :=
                   Some (''Failed to parse QR code. Please use a valid event QR code.'', Error)\<rparr>)"
  using assms
  by (simp add: handleScanSuccess_def showNotification_def scan_failed_def Let_def
      split: option.splits)

lemma scan_duplicate_any:
  assumes "duplicate_guard_scan (attendanceList w) data_NIK" and "\<not> isProcessingScan w"
    and "get_member data ''NIK'' = Some data_NIK"
  shows "\<exists>message t. handleScanSuccess Number_toString (Some data) now req w =
            Some (w\<lparr>isProcessingScan := True, notification := Some (message, t)\<rparr>)"
proof -
  from assms(3) obtain data_Nama where nama: "get_member data ''Nama'' = Some data_Nama"
    using get_member_other by blast
  show ?thesis
  proof (cases "truthy data_NIK \<and> truthy data_Nama")
    case True
    then have "handleScanSuccess Number_toString (Some data) now req w =
     Some (case js_ToString Number_toString data_Nama of
             Some text \<Rightarrow>
               w\<lparr>isProcessingScan := True,
                 notification := Some (text @ '' is already checked in.'', Info)\<rparr>
           | None \<Rightarrow>
               w\<lparr>isProcessingScan := True,
                 notification :=
                   Some (''Failed to parse QR code. Please use a valid event QR code.'', Error)\<rparr>)"
      using assms nama by (simp add: scan_duplicate_reached)
    then show ?thesis by (cases "js_ToString Number_toString data_Nama") auto
  next
    case False
    with assms nama have "handleScanSuccess Number_toString (Some data) now req w =
      Some (w\<lparr>isProcessingScan := True, notification :=
        Some (''Failed to parse QR code. Please use a valid event QR code.'', Error)\<rparr>)"
      by (auto simp: handleScanSuccess_def showNotification_def scan_failed_def Let_def)
    then show ?thesis by blast
  qed
qed

lemma scan_duplicate_notified:
  assumes "duplicate_guard_scan (attendanceList w) data_NIK" and "\<not> isProcessingScan w"
    and "get_member data ''NIK'' = Some data_NIK" and "truthy data_NIK"
    and "get_member data ''Nama'' = Some data_Nama" and "truthy data_Nama"
    and "js_ToString Number_toString data_Nama = Some shown"
  shows "handleScanSuccess Number_toString (Some data) now req w =
            Some (w\<lparr>isProcessingScan := True,
                    notification := Some (shown @ '' is already checked in.'', Info)\<rparr>)"
  using assms by (simp add: scan_duplicate_reached)

lemma manual_duplicate_reached:
  assumes "duplicate_guard (attendanceList w) (trim (manualNIK w))"
    and "trim (manualNIK w) \<noteq> []" and "trim (manualNama w) \<noteq> []"
  shows "handleManualAdd now req w =
            w\<lparr>notification :=
                Some (trim (manualNama w) @ '' (NIK: '' @ trim (manualNIK w)
                        @ '') is already checked in.'', Info)\<rparr>"
  using assms by (simp add: handleManualAdd_def showNotification_def Let_def)

lemma manual_duplicate_any:
  assumes "duplicate_guard (attendanceList w) (trim (manualNIK w))"
  shows "\<exists>message t. handleManualAdd now req w = w\<lparr>notification := Some (message, t)\<rparr>"
proof (cases "trim (manualNIK w) \<noteq> [] \<and> trim (manualNama w) \<noteq> []")
  case True
  with assms show ?thesis using manual_duplicate_reached by blast
next
  case False
  then have "handleManualAdd now req w =
      w\<lparr>notification := Some (''Both NIK and Nama are required for manual entry.'', Error)\<rparr>"
    by (auto simp: handleManualAdd_def showNotification_def)
  then show ?thesis by blast
qed

text \<open>
  C3. The Duplicate Guard answers true exactly when a record of the working set has the
  candidate identifier: in the manual path, where the candidate is a string, and in the
  scan path, where it is whatever the payload holds as \<^verbatim>\<open>NIK\<close>. Whenever the guard of the
  scan path answers true of the \<^verbatim>\<open>NIK\<close> of a payload that the handler processes, whatever
  else the payload holds, the handler shows a notification and changes nothing but
  that and its processing flag: the store and the record list stay as they were,
  whatever the engine would have answered to a write, so no Put is made. The
  notification is \<^verbatim>\<open>`${data.Nama} is already checked in.`\<close> whenever \<^verbatim>\<open>NIK\<close> and \<^verbatim>\<open>Nama\<close>
  pass the test before the guard and the text of \<^verbatim>\<open>Nama\<close> can be made. Whenever the guard
  answers true of the trimmed \<^verbatim>\<open>NIK\<close> of the form, the manual path shows a notification
  and changes nothing else; the notification is the one that the attendee is already
  checked in whenever both fields are non-empty once trimmed.
\<close>

theorem duplicate_guard_blocks_put:
  "(duplicate_guard attendees nik \<longleftrightarrow> (\<exists>a\<in>set attendees. NIK a = nik))
   \<and> (duplicate_guard_scan attendees candidate
        \<longleftrightarrow> (\<exists>a\<in>set attendees. candidate = JStr (NIK a)))
   \<and> (duplicate_guard_scan (attendanceList w) data_NIK \<and> \<not> isProcessingScan w
        \<and> get_member data ''NIK'' = Some data_NIK
      \<longrightarrow> (\<exists>message t. handleScanSuccess Number_toString (Some data) now req w =
            Some (w\<lparr>isProcessingScan := True, notification := Some (message, t)\<rparr>)))
   \<and> (duplicate_guard_scan (attendanceList w) data_NIK \<and> \<not> isProcessingScan w
        \<and> get_member data ''NIK'' = Some data_NIK \<and> truthy data_NIK
        \<and> get_member data ''Nama'' = Some data_Nama \<and> truthy data_Nama
        \<and> js_ToString Number_toString data_Nama = Some shown
      \<longrightarrow> handleScanSuccess Number_toString (Some data) now req w =
            Some (w\<lparr>isProcessingScan := True,
                    notification := Some (shown @ '' is already checked in.'', Info)\<rparr>))
   \<and> (duplicate_guard (attendanceList w) (trim (manualNIK w))
      \<longrightarrow> (\<exists>message t. handleManualAdd now req w = w\<lparr>notification := Some (message, t)\<rparr>))
   \<and> (duplicate_guard (attendanceList w) (trim (manualNIK w))
        \<and> trim (manualNIK w) \<noteq> [] \<and> trim (manualNama w) \<noteq> []
      \<longrightarrow> handleManualAdd now req w =
            w\<lparr>notification :=
                Some (trim (manualNama w) @ '' (NIK: '' @ trim (manualNIK w)
                        @ '') is already checked in.'', Info)\<rparr>)"
  using duplicate_guard_iff [of attendees nik]
    duplicate_guard_scan_iff [of attendees candidate]
    scan_duplicate_any [of w data_NIK data Number_toString now req]
    scan_duplicate_notified [of w data_NIK data data_Nama Number_toString shown now req]
    manual_duplicate_any [of w now req]
    manual_duplicate_reached [of w now req]
  by blast

theorem duplicate_guard_blocks_put_witness:
  "duplicate_guard [\<lparr>NIK = ''A001'', Nama = ''Jane'', timestamp = 1\<rparr>] ''A001''
   \<and> \<not> duplicate_guard [\<lparr>NIK = ''A001'', Nama = ''Jane'', timestamp = 1\<rparr>] ''A002''
   \<and> duplicate_guard_scan [\<lparr>NIK = ''A001'', Nama = ''Jane'', timestamp = 1\<rparr>] (JStr ''A001'')
   \<and> \<not> duplicate_guard_scan [\<lparr>NIK = ''A001'', Nama = ''Jane'', timestamp = 1\<rparr>] (JStr ''A002'')
   \<and> handleScanSuccess (\<lambda>n. if n = 5 then ''5'' else [])
        (Some (JObj [(''NIK'', JStr ''A001''), (''Nama'', JStr ''Jane'')])) 9 Request_succeeds
        \<lparr>db = Some [], attendanceList = [\<lparr>NIK = ''A001'', Nama = ''Jane'', timestamp = 1\<rparr>],
         notification = None, manualNIK = '' A001 '', manualNama = ''Jane'',
         isProcessingScan = False\<rparr>
      = Some \<lparr>db = Some [], attendanceList = [\<lparr>NIK = ''A001'', Nama = ''Jane'', timestamp = 1\<rparr>],
              notification = Some (''Jane is already checked in.'', Info),
              manualNIK = '' A001 '', manualNama = ''Jane'', isProcessingScan = True\<rparr>
   \<and> handleScanSuccess (\<lambda>n. if n = 5 then ''5'' else [])
        (Some (JObj [(''NIK'', JStr ''A001''), (''Nama'', JNum 5)])) 9 Request_succeeds
        \<lparr>db = Some [], attendanceList = [\<lparr>NIK = ''A001'', Nama = ''Jane'', timestamp = 1\<rparr>],
         notification = None, manualNIK = '' A001 '', manualNama = ''Jane'',
         isProcessingScan = False\<rparr>
      = Some \<lparr>db = Some [], attendanceList = [\<lparr>NIK = ''A001'', Nama = ''Jane'', timestamp = 1\<rparr>],
              notification = Some (''5 is already checked in.'', Info),
              manualNIK = '' A001 '', manualNama = ''Jane'', isProcessingScan = True\<rparr>
   \<and> handleManualAdd 9 Request_succeeds
        \<lparr>db = Some [], attendanceList = [\<lparr>NIK = ''A001'', Nama = ''Jane'', timestamp = 1\<rparr>],
         notification = None, manualNIK = '' A001 '', manualNama = ''Jane'',
         isProcessingScan = False\<rparr>
      = \<lparr>db = Some [], attendanceList = [\<lparr>NIK = ''A001'', Nama = ''Jane'', timestamp = 1\<rparr>],
         notification = Some (''Jane (NIK: A001) is already checked in.'', Info),
         manualNIK = '' A001 '', manualNama = ''Jane'', isProcessingScan = False\<rparr>"
proof -
  let ?as = "[\<lparr>NIK = ''A001'', Nama = ''Jane'', timestamp = 1\<rparr>]"
  let ?w = "\<lparr>db = Some [], attendanceList = ?as,
         notification = None, manualNIK = '' A001 '', manualNama = ''Jane'',
         isProcessingScan = False\<rparr>"
  let ?f = "\<lambda>n :: rat. if n = 5 then ''5'' else []"
  have t1: "trim '' A001 '' = ''A001''" by (simp add: trim_def is_space_def)
  have t2: "trim ''Jane'' = ''Jane''" by (simp add: trim_def is_space_def)
  show ?thesis
    using duplicate_guard_blocks_put [where attendees = ?as and nik = "''A001''"
        and candidate = "JStr ''A001''" and w = ?w and data_NIK = "JStr ''A001''"
        and data = "JObj [(''NIK'', JStr ''A001''), (''Nama'', JStr ''Jane'')]"
        and Number_toString = ?f and now = 9 and req = Request_succeeds
        and data_Nama = "JStr ''Jane''" and shown = "''Jane''"]
      duplicate_guard_blocks_put [where attendees = ?as and nik = "''A002''"
        and candidate = "JStr ''A002''" and w = ?w and data_NIK = "JStr ''A001''"
        and data = "JObj [(''NIK'', JStr ''A001''), (''Nama'', JNum 5)]"
        and Number_toString = ?f and now = 9 and req = Request_succeeds
        and data_Nama = "JNum 5" and shown = "''5''"]
    by (simp add: t1 t2)
qed

subsection \<open>Manual entry\<close>

lemma trim_prefix: "prefix (trim s) (dropWhile is_space s)"
proof -
  have "suffix (dropWhile is_space (rev (dropWhile is_space s))) (rev (dropWhile is_space s))"
    by (rule suffix_dropWhile)
  then show ?thesis
    by (simp add: trim_def suffix_to_prefix)
qed

lemma trim_ends:
  assumes "trim s \<noteq> []"
  shows "\<not> is_space (hd (trim s))" and "\<not> is_space (last (trim s))"
proof -
  let ?u = "dropWhile is_space s"
  from assms trim_prefix [of s] obtain zs where u: "?u = trim s @ zs"
    by (auto simp: prefix_def)
  with assms have "?u \<noteq> []" by auto
  then have "\<not> is_space (hd ?u)" by (rule hd_dropWhile)
  with u assms show "\<not> is_space (hd (trim s))" by (metis hd_append2)
  from assms have ne: "dropWhile is_space (rev ?u) \<noteq> []" by (simp add: trim_def)
  then have "\<not> is_space (hd (dropWhile is_space (rev ?u)))" by (rule hd_dropWhile)
  with ne show "\<not> is_space (last (trim s))" by (simp add: trim_def last_rev)
qed

lemma trim_idem: "trim (trim s) = trim s"
proof (cases "trim s = []")
  case True
  have "trim [] = []" by (simp add: trim_def)
  with True show ?thesis by simp
next
  case False
  from trim_ends [OF False] have h: "\<not> is_space (hd (trim s))" and l: "\<not> is_space (last (trim s))"
    by simp_all
  from False h have a: "dropWhile is_space (trim s) = trim s"
    by (cases "trim s") simp_all
  from False l have b: "dropWhile is_space (rev (trim s)) = rev (trim s)"
    by (cases "rev (trim s)") (simp_all add: last_rev [symmetric] hd_rev)
  show ?thesis
    unfolding trim_def [of "trim s"] a b by simp
qed

text \<open>
  C10. The manual path rejects an entry whose \<^verbatim>\<open>NIK\<close> or \<^verbatim>\<open>Nama\<close> is empty once trimmed,
  with an error notification and nothing else changed. Otherwise it either leaves the
  store and the record list as they were, or it adds exactly one record, to both: the
  record of the trimmed \<^verbatim>\<open>NIK\<close> and the trimmed \<^verbatim>\<open>Nama\<close>, which are non-empty, are fixed
  points of \<^verbatim>\<open>trim\<close> and neither start nor end with white space, and whose identifier
  the Duplicate Guard has been asked about in its trimmed form.
\<close>

theorem manual_entry_trimmed:
  "(trim (manualNIK w) = [] \<or> trim (manualNama w) = []
      \<longrightarrow> handleManualAdd now req w =
            w\<lparr>notification := Some (''Both NIK and Nama are required for manual entry.'', Error)\<rparr>)
   \<and> ((db (handleManualAdd now req w) = db w
         \<and> attendanceList (handleManualAdd now req w) = attendanceList w)
       \<or> (\<exists>r s. attendanceList (handleManualAdd now req w) = r # attendanceList w
            \<and> db w = Some s \<and> db (handleManualAdd now req w) = Some (store_put r s)
            \<and> r = \<lparr>NIK = trim (manualNIK w), Nama = trim (manualNama w), timestamp = now\<rparr>
            \<and> NIK r \<noteq> [] \<and> Nama r \<noteq> []
            \<and> trim (NIK r) = NIK r \<and> trim (Nama r) = Nama r
            \<and> \<not> is_space (hd (NIK r)) \<and> \<not> is_space (last (NIK r))
            \<and> \<not> is_space (hd (Nama r)) \<and> \<not> is_space (last (Nama r))
            \<and> \<not> duplicate_guard (attendanceList w) (NIK r)))"
proof -
  have first: "trim (manualNIK w) = [] \<or> trim (manualNama w) = []
      \<longrightarrow> handleManualAdd now req w =
            w\<lparr>notification := Some (''Both NIK and Nama are required for manual entry.'', Error)\<rparr>"
    by (auto simp: handleManualAdd_def showNotification_def)
  have second: "(db (handleManualAdd now req w) = db w
         \<and> attendanceList (handleManualAdd now req w) = attendanceList w)
       \<or> (\<exists>r s. attendanceList (handleManualAdd now req w) = r # attendanceList w
            \<and> db w = Some s \<and> db (handleManualAdd now req w) = Some (store_put r s)
            \<and> r = \<lparr>NIK = trim (manualNIK w), Nama = trim (manualNama w), timestamp = now\<rparr>
            \<and> NIK r \<noteq> [] \<and> Nama r \<noteq> []
            \<and> trim (NIK r) = NIK r \<and> trim (Nama r) = Nama r
            \<and> \<not> is_space (hd (NIK r)) \<and> \<not> is_space (last (NIK r))
            \<and> \<not> is_space (hd (Nama r)) \<and> \<not> is_space (last (Nama r))
            \<and> \<not> duplicate_guard (attendanceList w) (NIK r))"
  proof (cases "trim (manualNIK w) = [] \<or> trim (manualNama w) = []
                \<or> duplicate_guard (attendanceList w) (trim (manualNIK w))
                \<or> db w = None \<or> req = Request_fails")
    case True
    then have "db (handleManualAdd now req w) = db w
         \<and> attendanceList (handleManualAdd now req w) = attendanceList w"
      by (auto simp: handleManualAdd_def showNotification_def addAttendee_def Let_def
          split: option.splits request_outcome.splits)
    then show ?thesis by blast
  next
    case False
    then obtain s where s: "db w = Some s" by auto
    from False have r: "req = Request_succeeds" by (cases req) auto
    from False have n1: "trim (manualNIK w) \<noteq> []" and n2: "trim (manualNama w) \<noteq> []"
      and nd: "\<not> duplicate_guard (attendanceList w) (trim (manualNIK w))" by auto
    let ?r = "\<lparr>NIK = trim (manualNIK w), Nama = trim (manualNama w), timestamp = now\<rparr>"
    have "attendanceList (handleManualAdd now req w) = ?r # attendanceList w
            \<and> db (handleManualAdd now req w) = Some (store_put ?r s)"
      using s r n1 n2 nd
      by (simp add: handleManualAdd_def showNotification_def addAttendee_def Let_def)
    then show ?thesis
      using s n1 n2 nd trim_ends [OF n1] trim_ends [OF n2]
      by (simp add: trim_idem)
  qed
  from first second show ?thesis by (rule conjI)
qed

theorem manual_entry_trimmed_witness:
  "trim ''   '' = []
   \<and> handleManualAdd 5 Request_succeeds
        \<lparr>db = Some [], attendanceList = [], notification = None,
         manualNIK = ''   '', manualNama = ''Bob'', isProcessingScan = False\<rparr>
      = \<lparr>db = Some [], attendanceList = [],
         notification = Some (''Both NIK and Nama are required for manual entry.'', Error),
         manualNIK = ''   '', manualNama = ''Bob'', isProcessingScan = False\<rparr>
   \<and> handleManualAdd 5 Request_succeeds
        \<lparr>db = Some [], attendanceList = [], notification = None,
         manualNIK = ''  A002 '', manualNama = '' Bob'', isProcessingScan = False\<rparr>
      = \<lparr>db = Some [\<lparr>NIK = ''A002'', Nama = ''Bob'', timestamp = 5\<rparr>],
         attendanceList = [\<lparr>NIK = ''A002'', Nama = ''Bob'', timestamp = 5\<rparr>],
         notification = Some (''Welcome, Bob!'', Success),
         manualNIK = [], manualNama = [], isProcessingScan = False\<rparr>"
proof -
  have blank: "trim ''   '' = []" by (simp add: trim_def is_space_def)
  have t1: "trim ''  A002 '' = ''A002''" by (simp add: trim_def is_space_def)
  have t2: "trim '' Bob'' = ''Bob''" by (simp add: trim_def is_space_def)
  have added: "handleManualAdd 5 Request_succeeds
        \<lparr>db = Some [], attendanceList = [], notification = None,
         manualNIK = ''  A002 '', manualNama = '' Bob'', isProcessingScan = False\<rparr>
      = \<lparr>db = Some [\<lparr>NIK = ''A002'', Nama = ''Bob'', timestamp = 5\<rparr>],
         attendanceList = [\<lparr>NIK = ''A002'', Nama = ''Bob'', timestamp = 5\<rparr>],
         notification = Some (''Welcome, Bob!'', Success),
         manualNIK = [], manualNama = [], isProcessingScan = False\<rparr>"
    by (simp add: handleManualAdd_def t1 t2 duplicate_guard_def addAttendee_def
        showNotification_def Let_def)
  show ?thesis
    using blank added
      manual_entry_trimmed [of "\<lparr>db = Some [], attendanceList = [], notification = None,
         manualNIK = ''   '', manualNama = ''Bob'', isProcessingScan = False\<rparr>" 5 Request_succeeds]
    by simp
qed

section \<open>Properties of the List Projection\<close>

lemma str_includes_sublist: "str_includes s q \<longleftrightarrow> sublist q s"
  by (induction s) (simp_all add: sublist_Cons_right)

lemma str_includes_iff: "str_includes s q \<longleftrightarrow> (\<exists>before after. s = before @ q @ after)"
  by (simp add: str_includes_sublist sublist_def)

lemma matches_query_iff:
  "matches_query searchQuery a \<longleftrightarrow>
     contains_ignoring_case (Nama a) searchQuery \<or> contains_ignoring_case (NIK a) searchQuery"
  by (simp add: matches_query_def contains_ignoring_case_def str_includes_sublist)

lemma matches_empty_query: "matches_query [] a"
  by (simp add: matches_query_def toLowerCase_def str_includes_sublist)

lemma consistent_on_field:
  "consistent_comparator cmp \<Longrightarrow> consistent_comparator (\<lambda>a b. cmp (f a) (f b))"
  unfolding consistent_comparator_def by blast

lemma consistent_reversed:
  assumes "consistent_comparator cmp"
  shows "consistent_comparator (\<lambda>a b. - cmp a b)"
proof -
  from assms have sym: "\<And>x y. (cmp x y < 0) = (0 < cmp y x)"
    and tr: "\<And>x y z. cmp x y \<le> 0 \<Longrightarrow> cmp y z \<le> 0 \<Longrightarrow> cmp x z \<le> 0"
    unfolding consistent_comparator_def by blast+
  have ge: "\<And>x y. (0 \<le> cmp x y) = (cmp y x \<le> 0)"
    using sym by (metis not_le)
  have "\<And>x y z. 0 \<le> cmp x y \<Longrightarrow> 0 \<le> cmp y z \<Longrightarrow> 0 \<le> cmp x z"
    using ge tr by blast
  then show ?thesis
    unfolding consistent_comparator_def using sym by auto
qed

lemma consistent_compare_attendees:
  assumes "sortKey \<noteq> Key_timestamp \<Longrightarrow> consistent_comparator localeCompare"
  shows "consistent_comparator (compare_attendees localeCompare sortKey sortOrder)"
proof -
  have base: "consistent_comparator (compare_attendees localeCompare sortKey Asc)"
  proof (cases sortKey)
    case Key_timestamp
    have "compare_attendees localeCompare Key_timestamp Asc = (\<lambda>a b. timestamp a - timestamp b)"
      by (simp add: compare_attendees_def fun_eq_iff)
    with Key_timestamp show ?thesis by (simp add: consistent_ascending)
  next
    case Key_Nama
    have "compare_attendees localeCompare Key_Nama Asc = (\<lambda>a b. localeCompare (Nama a) (Nama b))"
      by (simp add: compare_attendees_def fun_eq_iff)
    with Key_Nama assms show ?thesis by (simp add: consistent_on_field)
  next
    case Key_NIK
    have "compare_attendees localeCompare Key_NIK Asc = (\<lambda>a b. localeCompare (NIK a) (NIK b))"
      by (simp add: compare_attendees_def fun_eq_iff)
    with Key_NIK assms show ?thesis by (simp add: consistent_on_field)
  qed
  show ?thesis
  proof (cases sortOrder)
    case Asc
    with base show ?thesis by simp
  next
    case Desc
    have "compare_attendees localeCompare sortKey Desc
          = (\<lambda>a b. - compare_attendees localeCompare sortKey Asc a b)"
      by (simp add: compare_attendees_def fun_eq_iff Let_def)
    with Desc consistent_reversed [OF base] show ?thesis by simp
  qed
qed

lemma in_order_iff:
  "in_order localeCompare sortKey sortOrder a b
     \<longleftrightarrow> compare_attendees localeCompare sortKey sortOrder a b \<le> 0"
  by (cases sortKey; cases sortOrder) (simp_all add: in_order_def compare_attendees_def)

text \<open>
  C7. For a consistent \<open>localeCompare\<close> (needed only when the sort field is one of the two
  string fields), the List Projection holds exactly the records whose \<^verbatim>\<open>Nama\<close> or \<^verbatim>\<open>NIK\<close>
  contains the filter text case-insensitively, each as often as the record set holds
  it, and is ordered by the sort field in the requested direction: by instant for the
  timestamp, by \<open>localeCompare\<close> for the string fields. With the empty filter it holds
  every record. The projection is a function of its arguments: it returns a new list
  and the record set it was given is not changed.
\<close>

theorem list_projection:
  assumes "sortKey \<noteq> Key_timestamp \<Longrightarrow> consistent_comparator localeCompare"
  shows "mset (sortedAndFilteredAttendees localeCompare attendees searchQuery sortKey sortOrder)
       = mset (filter (\<lambda>a. contains_ignoring_case (Nama a) searchQuery
                          \<or> contains_ignoring_case (NIK a) searchQuery) attendees)
     \<and> sorted_wrt (in_order localeCompare sortKey sortOrder)
         (sortedAndFilteredAttendees localeCompare attendees searchQuery sortKey sortOrder)
     \<and> mset (sortedAndFilteredAttendees localeCompare attendees [] sortKey sortOrder)
       = mset attendees"
proof -
  let ?cmp = "compare_attendees localeCompare sortKey sortOrder"
  have same: "filter (matches_query searchQuery) attendees
      = filter (\<lambda>a. contains_ignoring_case (Nama a) searchQuery
                          \<or> contains_ignoring_case (NIK a) searchQuery) attendees"
    by (rule filter_cong) (simp_all add: matches_query_iff)
  have members: "mset (sortedAndFilteredAttendees localeCompare attendees searchQuery sortKey sortOrder)
       = mset (filter (\<lambda>a. contains_ignoring_case (Nama a) searchQuery
                          \<or> contains_ignoring_case (NIK a) searchQuery) attendees)"
    unfolding sortedAndFilteredAttendees_def Let_def by (simp only: mset_js_sort same)
  have "sorted_wrt (\<lambda>a b. ?cmp a b \<le> 0) (js_sort ?cmp (filter (matches_query searchQuery) attendees))"
    by (rule sorted_js_sort [OF consistent_compare_attendees [OF assms]])
  then have ordered: "sorted_wrt (in_order localeCompare sortKey sortOrder)
         (sortedAndFilteredAttendees localeCompare attendees searchQuery sortKey sortOrder)"
    by (simp add: sortedAndFilteredAttendees_def in_order_iff [abs_def])
  have "filter (matches_query []) attendees = attendees"
    by (simp add: filter_id_conv matches_empty_query)
  then have everything: "mset (sortedAndFilteredAttendees localeCompare attendees [] sortKey sortOrder)
       = mset attendees"
    by (simp add: sortedAndFilteredAttendees_def mset_js_sort)
  from members ordered everything show ?thesis by simp
qed

theorem list_projection_witness:
  "consistent_comparator (\<lambda>x y :: string. if x < y then - 1 else if x = y then 0 else (1 :: int))
   \<and> sortedAndFilteredAttendees (\<lambda>x y. if x < y then - 1 else if x = y then 0 else 1)
        [\<lparr>NIK = ''A1'', Nama = ''Jane'', timestamp = 2\<rparr>, \<lparr>NIK = ''A2'', Nama = ''Alan'', timestamp = 1\<rparr>]
        ''jan'' Key_Nama Asc
      = [\<lparr>NIK = ''A1'', Nama = ''Jane'', timestamp = 2\<rparr>]
   \<and> mset (sortedAndFilteredAttendees (\<lambda>x y. if x < y then - 1 else if x = y then 0 else 1)
        [\<lparr>NIK = ''A1'', Nama = ''Jane'', timestamp = 2\<rparr>, \<lparr>NIK = ''A2'', Nama = ''Alan'', timestamp = 1\<rparr>]
        [] Key_Nama Asc)
      = mset [\<lparr>NIK = ''A1'', Nama = ''Jane'', timestamp = 2\<rparr>, \<lparr>NIK = ''A2'', Nama = ''Alan'', timestamp = 1\<rparr>]"
proof -
  let ?cmp = "\<lambda>x y :: string. if x < y then - 1 else if x = y then 0 else (1 :: int)"
  have c: "consistent_comparator ?cmp"
    by (auto simp: consistent_comparator_def split: if_splits)
  have e: "sortedAndFilteredAttendees ?cmp
        [\<lparr>NIK = ''A1'', Nama = ''Jane'', timestamp = 2\<rparr>, \<lparr>NIK = ''A2'', Nama = ''Alan'', timestamp = 1\<rparr>]
        ''jan'' Key_Nama Asc
      = [\<lparr>NIK = ''A1'', Nama = ''Jane'', timestamp = 2\<rparr>]"
    by code_simp
  show ?thesis
    using c e list_projection [OF c, where sortKey = Key_Nama and sortOrder = Asc
        and searchQuery = "''jan''" and attendees =
        "[\<lparr>NIK = ''A1'', Nama = ''Jane'', timestamp = 2\<rparr>, \<lparr>NIK = ''A2'', Nama = ''Alan'', timestamp = 1\<rparr>]"]
    by simp
qed

section \<open>Properties of the export\<close>

lemma csv_line_unfold:
  "csv_line toLocaleString a =
     NIK a @ '','' @ [double_quote] @ escape_quotes (Nama a) @ [double_quote]
       @ '','' @ [double_quote] @ toLocaleString (timestamp a) @ [double_quote]"
  by (simp add: csv_line_def csv_row_def)

text \<open>
  What the export does for every non-empty record set: the header line, then one line
  for each record, in ascending order of timestamp. In a line, \<^verbatim>\<open>Nama\<close> stands between
  double quotes with each of its own double quotes doubled, the formatted timestamp
  stands between double quotes, and \<^verbatim>\<open>NIK\<close> stands as it is.
\<close>

lemma export_document:
  assumes "attendanceList w \<noteq> []"
  shows "\<exists>sortedAttendees.
      handleExportCSV toLocaleString w =
        (w\<lparr>notification := Some (''Attendance list exported.'', Success)\<rparr>,
         Some (''data:text/csv;charset=utf-8,''
               @ js_join [CHR 0x0A]
                   (''NIK,Nama,Timestamp'' # map (csv_line toLocaleString) sortedAttendees)))
      \<and> mset sortedAttendees = mset (attendanceList w)
      \<and> sorted_wrt (\<lambda>a b. timestamp a \<le> timestamp b) sortedAttendees"
proof -
  let ?sorted = "js_sort (\<lambda>a b. timestamp a - timestamp b) (attendanceList w)"
  have "sorted_wrt (\<lambda>a b. timestamp a - timestamp b \<le> 0) ?sorted"
    by (rule sorted_js_sort [OF consistent_ascending])
  then have ordered: "sorted_wrt (\<lambda>a b. timestamp a \<le> timestamp b) ?sorted" by simp
  have lines: "map (js_join '','') (map (csv_row toLocaleString) ?sorted)
      = map (csv_line toLocaleString) ?sorted"
    by (simp add: csv_line_def)
  have "handleExportCSV toLocaleString w =
        (w\<lparr>notification := Some (''Attendance list exported.'', Success)\<rparr>,
         Some (''data:text/csv;charset=utf-8,''
               @ js_join [CHR 0x0A]
                   (''NIK,Nama,Timestamp'' # map (csv_line toLocaleString) ?sorted)))"
    using assms unfolding handleExportCSV_def Let_def lines
    by (simp add: showNotification_def)
  with ordered show ?thesis using mset_js_sort by blast
qed

lemma export_nothing:
  "attendanceList w = [] \<Longrightarrow>
   handleExportCSV toLocaleString w =
     (w\<lparr>notification := Some (''No attendees to export.'', Info)\<rparr>, None)"
  by (simp add: handleExportCSV_def showNotification_def)

lemma escape_quotes_example:
  "[double_quote] @ escape_quotes (''Jo'' @ [double_quote] @ ''hn'') @ [double_quote]
     = [double_quote] @ ''Jo'' @ [double_quote, double_quote] @ ''hn'' @ [double_quote]"
  by (simp add: escape_quotes_def double_quote_def)

text \<open>
  C4. The export of a record set holding one record whose identifier is \<^verbatim>\<open>12,34\<close>: the
  line of the record begins \<^verbatim>\<open>12,34,"Jane",\<close>. The identifier, a string field, is written
  without quotes, so the line reads as four columns under a header of three.
\<close>

theorem export_identifier_unquoted:
  "snd (handleExportCSV toLocaleString
          \<lparr>db = Some [\<lparr>NIK = ''12,34'', Nama = ''Jane'', timestamp = 1000\<rparr>],
           attendanceList = [\<lparr>NIK = ''12,34'', Nama = ''Jane'', timestamp = 1000\<rparr>],
           notification = None, manualNIK = [], manualNama = [], isProcessingScan = False\<rparr>)
   = Some (''data:text/csv;charset=utf-8,NIK,Nama,Timestamp'' @ [CHR 0x0A]
           @ ''12,34,'' @ [CHR 0x22] @ ''Jane'' @ [CHR 0x22] @ '','' @ [CHR 0x22]
           @ toLocaleString 1000 @ [CHR 0x22])"
  by (simp add: handleExportCSV_def showNotification_def js_sort_def csv_row_def
      escape_quotes_def double_quote_def)

end
